theory Spec2Isabelle
  imports Main "HOL-Library.Char_ord" "HOL-Library.Multiset"
begin

section \<open>Strings\<close>

text \<open>
  A JavaScript string is modelled as a \<open>string\<close>: a list of code units below 256
  (Latin-1). Code units above 255 are outside the model. Numbers of the game state are
  integers far below \<open>2^53\<close>, so JavaScript's doubles are modelled as \<open>int\<close> and \<open>nat\<close>.
\<close>

text \<open>The white space of \<open>String.prototype.trim\<close> below 256: TAB, LF, VT, FF, CR, SP, NBSP.\<close>

definition isWhiteSpace :: "char \<Rightarrow> bool" where
  "isWhiteSpace c = ((of_char c :: nat) \<in> set [9, 10, 11, 12, 13, 32, 160])"

definition trim :: "string \<Rightarrow> string" where
  "trim s = rev (dropWhile isWhiteSpace (rev (dropWhile isWhiteSpace s)))"

text \<open>\<open>toLowerCase\<close> on Latin-1: A-Z and the accented capitals (not the multiplication sign).\<close>

definition lowerChar :: "char \<Rightarrow> char" where
  "lowerChar c = (let n = (of_char c :: nat) in
     if (65 \<le> n \<and> n \<le> 90) \<or> (192 \<le> n \<and> n \<le> 222 \<and> n \<noteq> 215)
     then char_of (n + 32) else c)"

definition toLowerCase :: "string \<Rightarrow> string" where
  "toLowerCase s = map lowerChar s"

text \<open>The complement of the character class \<open>[^a-z]\<close>.\<close>

definition isLowerAZ :: "char \<Rightarrow> bool" where
  "isLowerAZ c = (CHR ''a'' \<le> c \<and> c \<le> CHR ''z'')"

text \<open>\<open>GameUtils.sanitizeInput\<close>: \<open>input.trim().toLowerCase().replace(/[^a-z]/g, "")\<close>.\<close>

definition sanitizeInput :: "string \<Rightarrow> string" where
  "sanitizeInput input = filter isLowerAZ (toLowerCase (trim input))"

text \<open>
  \<open>GameUtils.lettersSignature\<close>: \<open>str.toLowerCase().split("").sort().join("")\<close>. The default
  comparison of \<open>sort\<close> orders one-character strings by code unit.
\<close>

definition lettersSignature :: "string \<Rightarrow> string" where
  "lettersSignature str = sort (toLowerCase str)"

definition sameLetters :: "string \<Rightarrow> string \<Rightarrow> bool" where
  "sameLetters a b = (lettersSignature a = lettersSignature b)"

section \<open>Randomised helpers\<close>

text \<open>
  \<open>GameUtils.shuffleArray\<close> (Fisher-Yates). \<open>Math.floor(Math.random() * (i + 1))\<close> is an
  integer between \<open>0\<close> and \<open>i\<close>; the model takes the draw made at index \<open>i\<close> from the
  random source \<open>rnd\<close> and reduces it modulo \<open>i + 1\<close>, so that every source is a possible
  run. The loop runs \<open>i\<close> from \<open>length - 1\<close> down to \<open>1\<close>.
\<close>

fun shuffleFrom :: "(nat \<Rightarrow> nat) \<Rightarrow> nat \<Rightarrow> 'a list \<Rightarrow> 'a list" where
  "shuffleFrom rnd 0 shuffled = shuffled"
| "shuffleFrom rnd (Suc i) shuffled =
     (let j = rnd (Suc i) mod (Suc i + 1)
      in shuffleFrom rnd i (shuffled[Suc i := shuffled ! j, j := shuffled ! Suc i]))"

definition shuffleArray :: "(nat \<Rightarrow> nat) \<Rightarrow> 'a list \<Rightarrow> 'a list" where
  "shuffleArray rnd array = shuffleFrom rnd (length array - 1) array"

text \<open>
  \<open>array.sort(() => Math.random() - 0.5)\<close>: with a comparison that is not consistent the
  order that \<open>sort\<close> produces is left to the engine; the result is a rearrangement of the
  array. The model takes the rearrangement from the random source, as a list of picks:
  each pick selects the next element among those not yet placed. When the picks run out
  the remaining elements keep their order.
\<close>

fun sortRandom :: "nat list \<Rightarrow> 'a list \<Rightarrow> 'a list" where
  "sortRandom [] xs = xs"
| "sortRandom (k # ks) xs =
     (if xs = [] then []
      else let i = k mod length xs
           in xs ! i # sortRandom ks (take i xs @ drop (Suc i) xs))"

text \<open>
  \<open>GameUtils.scrambleWord\<close>: one shuffle, then up to ten more while the result equals the
  word. \<open>picks n\<close> is what the random source gives the \<open>n\<close>-th shuffle (\<open>n = 0\<close> the first).
\<close>

function scrambleLoop :: "(nat \<Rightarrow> nat list) \<Rightarrow> string \<Rightarrow> string \<Rightarrow> nat \<Rightarrow> string" where
  "scrambleLoop picks word scrambled attempts =
     (if scrambled = word \<and> attempts < 10
      then scrambleLoop picks word (sortRandom (picks (Suc attempts)) word) (Suc attempts)
      else scrambled)"
  by pat_completeness auto
termination
  by (relation "measure (\<lambda>(picks, word, scrambled, attempts). 10 - attempts)") auto

declare scrambleLoop.simps [simp del]

definition scrambleWord :: "(nat \<Rightarrow> nat list) \<Rightarrow> string \<Rightarrow> string" where
  "scrambleWord picks word =
     (if length word \<le> 1 then word
      else scrambleLoop picks word (sortRandom (picks 0) word) 0)"

section \<open>Word lists\<close>

text \<open>
  The word lists live in \<open>js/words.js\<close>; they are parameters here. \<open>SAFE_WORDS\<close> and
  \<open>ALTERNATE_WORDS\<close> may be undefined (\<open>None\<close>).
\<close>

record lexicon =
  SAFE_WORDS :: "string list option"
  WORDS :: "string list"
  ALTERNATE_WORDS :: "string list option"

text \<open>\<open>typeof SAFE_WORDS !== "undefined" ? SAFE_WORDS : WORDS\<close>\<close>

definition baseDict :: "lexicon \<Rightarrow> string list" where
  "baseDict env = (case SAFE_WORDS env of Some ws \<Rightarrow> ws | None \<Rightarrow> WORDS env)"

definition alt :: "lexicon \<Rightarrow> string list" where
  "alt env = (case ALTERNATE_WORDS env of Some ws \<Rightarrow> ws | None \<Rightarrow> [])"

text \<open>\<open>Array.isArray(alt) && alt.length ? baseDict.concat(alt) : baseDict\<close>\<close>

definition dictionary :: "lexicon \<Rightarrow> string list" where
  "dictionary env = (if length (alt env) \<noteq> 0 then baseDict env @ alt env else baseDict env)"

section \<open>Game state\<close>

datatype difficulty = Easy | Medium | Hard

record config =
  words :: nat
  time :: int
  minLen :: nat
  maxLen :: nat

fun difficultyConfig :: "difficulty \<Rightarrow> config" where
  "difficultyConfig Easy = \<lparr>words = 5, time = 120, minLen = 4, maxLen = 5\<rparr>"
| "difficultyConfig Medium = \<lparr>words = 10, time = 150, minLen = 6, maxLen = 7\<rparr>"
| "difficultyConfig Hard = \<lparr>words = 20, time = 180, minLen = 8, maxLen = 12\<rparr>"

text \<open>
  \<open>this.game\<close>. \<open>startTime\<close> is \<open>null\<close> (\<open>None\<close>) before the first round; an entry of
  \<open>missed\<close> is a word or \<open>undefined\<close> (\<open>None\<close>), which is what an index past the end of
  \<open>selectedWords\<close> reads. The interval handle and the session id are left out: no
  transition reads them.
\<close>

record game =
  difficulty :: difficulty
  totalWords :: nat
  timeLimit :: int
  currentWord :: nat
  score :: int
  lives :: int
  hints :: int
  streak :: int
  longestStreak :: int
  startTime :: "int option"
  selectedWords :: "string list"
  solved :: "string list"
  missed :: "string option list"
  wordsPlayed :: nat

text \<open>
  The \<open>WordsMaster\<close> object: the game, the active flag, the high score, the hints used
  per word index, and whether each of the two end-of-round popups has been requested.
  Rendering, audio and animation are not part of the state.
\<close>

record world =
  game :: game
  isGameActive :: bool
  highScore :: int
  currentHintsUsed :: "nat \<rightharpoonup> nat"
  perfectPopup :: bool
  highscorePopup :: bool

datatype js_error = TypeError

text \<open>
  A call returns, or throws with the state as it is at the throw: JavaScript does not
  undo the assignments made before an exception.
\<close>

datatype 'a outcome = Returned 'a | Threw js_error 'a

fun state_of :: "'a outcome \<Rightarrow> 'a" where
  "state_of (Returned s) = s"
| "state_of (Threw e s) = s"

fun returned :: "'a outcome \<Rightarrow> bool" where
  "returned (Returned s) = True"
| "returned (Threw e s) = False"

text \<open>\<open>xs[i]\<close>: \<open>undefined\<close> past the end.\<close>

definition nth_opt :: "'a list \<Rightarrow> nat \<Rightarrow> 'a option" where
  "nth_opt xs i = (if i < length xs then Some (xs ! i) else None)"

text \<open>The state of the constructor and of \<open>resetGameState\<close>.\<close>

definition defaultGame :: game where
  "defaultGame = \<lparr>difficulty = Easy, totalWords = 5, timeLimit = 120, currentWord = 0,
     score = 0, lives = 3, hints = 3, streak = 0, longestStreak = 0, startTime = None,
     selectedWords = [], solved = [], missed = [], wordsPlayed = 0\<rparr>"

definition initWorld :: "int \<Rightarrow> world" where
  "initWorld storedHighScore = \<lparr>game = defaultGame, isGameActive = False,
     highScore = storedHighScore, currentHintsUsed = Map.empty,
     perfectPopup = False, highscorePopup = False\<rparr>"

definition resetGameState :: "world \<Rightarrow> world" where
  "resetGameState w = w\<lparr>game := defaultGame, currentHintsUsed := Map.empty\<rparr>"

definition destroy :: "world \<Rightarrow> world" where
  "destroy w = w\<lparr>isGameActive := False\<rparr>"

section \<open>Transitions\<close>

text \<open>\<open>Math.floor((Date.now() - startTime) / 1000)\<close>; \<open>null\<close> counts as \<open>0\<close>.\<close>

definition elapsedSeconds :: "int \<Rightarrow> game \<Rightarrow> int" where
  "elapsedSeconds now g = (now - (case startTime g of None \<Rightarrow> 0 | Some t \<Rightarrow> t)) div 1000"

text \<open>\<open>endGame\<close>: it has no \<open>await\<close>, so it runs to its end when called.\<close>

definition endGame :: "int \<Rightarrow> world \<Rightarrow> world" where
  "endGame now w =
     (let g = game w;
          elapsed = elapsedSeconds now g;
          remaining = max 0 (timeLimit g - elapsed);
          streakBonus = longestStreak g * 10;
          timeBonus = (if length (solved g) > 0 then remaining else 0);
          perfectBonus =
            (if length (solved g) > 0 \<and> length (solved g) = totalWords g then 100 else 0);
          g' = g\<lparr>score := (if length (solved g) > 0
                             then score g + (timeBonus + streakBonus + perfectBonus)
                             else 0)\<rparr>;
          perfect = (length (solved g') = totalWords g' \<and> hints g' = 3);
          newHigh = (score g' > highScore w)
      in w\<lparr>game := g', isGameActive := False,
           perfectPopup := (perfectPopup w \<or> perfect),
           highscorePopup := (highscorePopup w \<or> newHigh),
           highScore := (if newHigh then score g' else highScore w)\<rparr>)"

text \<open>\<open>updateGame\<close>, the timer's tick.\<close>

definition updateGame :: "int \<Rightarrow> world \<Rightarrow> world" where
  "updateGame now w =
     (let elapsed = elapsedSeconds now (game w);
          remaining = timeLimit (game w) - elapsed
      in if remaining \<le> 0 then endGame now w else w)"

text \<open>
  \<open>showNextWord\<close>: past the last word it ends the game; else it scrambles the word for
  display, and \<open>GameUtils.scrambleWord(undefined)\<close> throws on \<open>word.length\<close>.
\<close>

definition showNextWord :: "int \<Rightarrow> world \<Rightarrow> world outcome" where
  "showNextWord now w =
     (if currentWord (game w) \<ge> totalWords (game w) then Returned (endGame now w)
      else (case nth_opt (selectedWords (game w)) (currentWord (game w)) of
              None \<Rightarrow> Threw TypeError w
            | Some word \<Rightarrow> Returned w))"

definition eligible :: "lexicon \<Rightarrow> config \<Rightarrow> string list" where
  "eligible env c = filter (\<lambda>w. length w \<ge> minLen c \<and> length w \<le> maxLen c) (baseDict env)"

definition startGame :: "lexicon \<Rightarrow> difficulty \<Rightarrow> int \<Rightarrow> (nat \<Rightarrow> nat) \<Rightarrow> world \<Rightarrow> world outcome" where
  "startGame env d now rnd w =
     (let c = difficultyConfig d;
          g = \<lparr>difficulty = d, totalWords = words c, timeLimit = time c, currentWord = 0,
               score = 0, lives = 3, hints = 3, streak = 0, longestStreak = 0,
               startTime = Some now,
               selectedWords = take (words c) (shuffleArray rnd (eligible env c)),
               solved = [], missed = [], wordsPlayed = 0\<rparr>
      in showNextWord now
           (w\<lparr>game := g, currentHintsUsed := Map.empty, isGameActive := True\<rparr>))"

definition handleCorrectAnswer :: "string \<Rightarrow> world \<Rightarrow> world" where
  "handleCorrectAnswer correctWord w =
     (let g = game w;
          g1 = g\<lparr>score := score g + 100, streak := streak g + 1\<rparr>;
          g2 = g1\<lparr>longestStreak := max (streak g1) (longestStreak g1)\<rparr>
      in w\<lparr>game := g2\<lparr>solved := solved g2 @ [correctWord]\<rparr>\<rparr>)"

text \<open>The loop of \<open>handleWrongAnswer\<close> over \<open>i = startIdx, ..., totalWords - 1\<close>.\<close>

definition addMissed :: "string list \<Rightarrow> string list \<Rightarrow> nat \<Rightarrow> string option list \<Rightarrow> string option list" where
  "addMissed sel slv i ms =
     (let w = nth_opt sel i
      in if w \<notin> set ms \<and> w \<notin> set (map Some slv) then ms @ [w] else ms)"

definition handleWrongAnswer :: "int \<Rightarrow> string \<Rightarrow> world \<Rightarrow> world" where
  "handleWrongAnswer now correctWord w =
     (let g = game w;
          g1 = g\<lparr>lives := lives g - 1, streak := 0\<rparr>
      in if lives g1 \<le> 0
         then endGame now
                (w\<lparr>game := g1\<lparr>missed := fold (addMissed (selectedWords g1) (solved g1))
                                              [currentWord g1 ..< totalWords g1] (missed g1)\<rparr>\<rparr>)
         else w\<lparr>game := g1\<rparr>)"

text \<open>
  \<open>submitAnswer\<close>. \<open>userInput\<close> is the value of the input element, \<open>None\<close> when the
  element is missing. Reading \<open>selectedWords[currentWord].toLowerCase()\<close> throws when the
  index is past the end.
\<close>

definition submitAnswer :: "lexicon \<Rightarrow> int \<Rightarrow> string option \<Rightarrow> world \<Rightarrow> world outcome" where
  "submitAnswer env now userInput w =
     (case userInput of
        None \<Rightarrow> Returned w
      | Some raw \<Rightarrow>
          (if \<not> isGameActive w then Returned w
           else (let guess = sanitizeInput raw
                 in (case nth_opt (selectedWords (game w)) (currentWord (game w)) of
                       None \<Rightarrow> Threw TypeError w
                     | Some target \<Rightarrow>
                         (let correct = toLowerCase target;
                              matchesLetters = sameLetters guess correct;
                              isInDictionary = (guess \<in> set (dictionary env))
                          in (if isInDictionary \<and> matchesLetters \<and> length guess > 0
                              then (let w1 = handleCorrectAnswer guess w;
                                        g1 = game w1
                                    in showNextWord now
                                         (w1\<lparr>game := g1\<lparr>currentWord := currentWord g1 + 1,
                                                          wordsPlayed := wordsPlayed g1 + 1\<rparr>\<rparr>))
                              else (if guess \<noteq> []
                                    then Returned (handleWrongAnswer now correct w)
                                    else Returned w)))))))"

text \<open>
  \<open>useHint\<close>: the hint is counted first; building the text reads \<open>word[0]\<close>, which
  throws when the word is \<open>undefined\<close>.
\<close>

definition useHint :: "world \<Rightarrow> world outcome" where
  "useHint w =
     (if hints (game w) > 0
      then (let w1 = w\<lparr>game := (game w)\<lparr>hints := hints (game w) - 1\<rparr>\<rparr>;
                i = currentWord (game w1);
                hintCount = (case currentHintsUsed w1 i of None \<Rightarrow> 0 | Some n \<Rightarrow> n)
            in (case nth_opt (selectedWords (game w1)) i of
                  None \<Rightarrow> Threw TypeError w1
                | Some word \<Rightarrow>
                    Returned (w1\<lparr>currentHintsUsed := (currentHintsUsed w1)(i \<mapsto> hintCount + 1)\<rparr>)))
      else Returned w)"

definition skipWord :: "int \<Rightarrow> world \<Rightarrow> world outcome" where
  "skipWord now w =
     (let g = game w;
          g1 = g\<lparr>missed := missed g @ [nth_opt (selectedWords g) (currentWord g)]\<rparr>;
          g2 = g1\<lparr>currentWord := currentWord g1 + 1, wordsPlayed := wordsPlayed g1 + 1\<rparr>;
          w2 = w\<lparr>game := g2\<rparr>
      in if currentWord g2 \<ge> totalWords g2 then Returned (endGame now w2)
         else showNextWord now w2)"

text \<open>
  The states of one round: those that the handlers and the timer reach from the state
  \<open>s\<close> that \<open>startGame\<close> left, in any order and at any clock value, before the next
  \<open>startGame\<close>.
\<close>

inductive reachableFrom :: "lexicon \<Rightarrow> world \<Rightarrow> world \<Rightarrow> bool" for env :: lexicon and s :: world where
  r_refl: "reachableFrom env s s"
| r_submit: "reachableFrom env s w \<Longrightarrow> reachableFrom env s (state_of (submitAnswer env now input w))"
| r_hint: "reachableFrom env s w \<Longrightarrow> reachableFrom env s (state_of (useHint w))"
| r_skip: "reachableFrom env s w \<Longrightarrow> reachableFrom env s (state_of (skipWord now w))"
| r_tick: "reachableFrom env s w \<Longrightarrow> reachableFrom env s (updateGame now w)"
| r_end: "reachableFrom env s w \<Longrightarrow> reachableFrom env s (endGame now w)"
| r_reset: "reachableFrom env s w \<Longrightarrow> reachableFrom env s (resetGameState w)"
| r_destroy: "reachableFrom env s w \<Longrightarrow> reachableFrom env s (destroy w)"

text \<open>
  The invariant of a round in progress: the words are all there, no two of them have
  the same letters, the current index and the lives are in range, \<open>missed\<close> holds words
  before the current index, \<open>solved\<close> holds dictionary words, and the entries of the two
  lists match the words before the current index one to one by letter signature.
\<close>

definition inProgress :: "lexicon \<Rightarrow> game \<Rightarrow> bool" where
  "inProgress env g \<longleftrightarrow>
     totalWords g = length (selectedWords g)
     \<and> distinct (map lettersSignature (selectedWords g))
     \<and> currentWord g < totalWords g
     \<and> 0 < lives g
     \<and> set (missed g) \<subseteq> Some ` set (take (currentWord g) (selectedWords g))
     \<and> set (solved g) \<subseteq> set (dictionary env)
     \<and> mset (map lettersSignature (solved g)) + mset (map (lettersSignature \<circ> the) (missed g))
       = mset (map lettersSignature (take (currentWord g) (selectedWords g)))"

text \<open>
  \<open>resetGameState\<close> does not clear the active flag; it leaves an active state without
  words, in which \<open>submitAnswer\<close> throws before it judges the guess.
\<close>

definition roundInv :: "lexicon \<Rightarrow> world \<Rightarrow> bool" where
  "roundInv env w \<longleftrightarrow>
     (isGameActive w \<longrightarrow> selectedWords (game w) = [] \<or> inProgress env (game w))"

section \<open>Helper lemmas\<close>

lemma lowerChar_idem: "lowerChar (lowerChar c) = lowerChar c"
proof -
  define n where "n = (of_char c :: nat)"
  show ?thesis
  proof (cases "(65 \<le> n \<and> n \<le> 90) \<or> (192 \<le> n \<and> n \<le> 222 \<and> n \<noteq> 215)")
    case True
    then have l: "lowerChar c = char_of (n + 32)"
      by (simp add: lowerChar_def n_def)
    have "(of_char (char_of (n + 32) :: char) :: nat) = n + 32"
      using True by (auto simp add: of_char_of)
    then have "lowerChar (char_of (n + 32)) = char_of (n + 32)"
      using True unfolding lowerChar_def Let_def by auto
    with l show ?thesis by simp
  next
    case False
    then have "lowerChar c = c"
      by (auto simp add: lowerChar_def n_def Let_def)
    then show ?thesis by simp
  qed
qed

lemma toLowerCase_idem: "toLowerCase (toLowerCase s) = toLowerCase s"
  by (simp add: toLowerCase_def lowerChar_idem)

lemma lettersSignature_lower: "lettersSignature (toLowerCase s) = lettersSignature s"
  by (simp add: lettersSignature_def toLowerCase_idem)

text \<open>
  Trimming changes nothing in the end: white space is no letter, so the sanitized input
  is the lowercased input without the characters outside a-z, and it is empty exactly
  when the input has no letter.
\<close>

lemma whitespace_not_letter: "isWhiteSpace c \<Longrightarrow> \<not> isLowerAZ (lowerChar c)"
proof -
  assume ws: "isWhiteSpace c"
  define n where "n = (of_char c :: nat)"
  have n: "n = 9 \<or> n = 10 \<or> n = 11 \<or> n = 12 \<or> n = 13 \<or> n = 32 \<or> n = 160"
    using ws by (simp add: isWhiteSpace_def n_def)
  then have "lowerChar c = c"
    by (auto simp add: lowerChar_def Let_def n_def [symmetric])
  moreover have "\<not> (97 \<le> n \<and> n \<le> 122)"
    using n by auto
  then have "\<not> isLowerAZ c"
    by (simp add: isLowerAZ_def less_eq_char_def n_def)
  ultimately show ?thesis by simp
qed

lemma filter_dropWhile_skip:
  "(\<And>x. W x \<Longrightarrow> \<not> Q x) \<Longrightarrow> filter Q (dropWhile W xs) = filter Q xs"
  by (induction xs) auto

lemma filter_trim:
  assumes "\<And>x. isWhiteSpace x \<Longrightarrow> \<not> Q x"
  shows "filter Q (trim s) = filter Q s"
proof -
  have "filter Q (trim s) = rev (filter Q (dropWhile isWhiteSpace (rev (dropWhile isWhiteSpace s))))"
    by (simp add: trim_def rev_filter)
  also have "\<dots> = rev (filter Q (rev (dropWhile isWhiteSpace s)))"
    by (simp only: filter_dropWhile_skip [of isWhiteSpace Q, OF assms])
  also have "\<dots> = filter Q (dropWhile isWhiteSpace s)"
    by (simp add: rev_filter)
  also have "\<dots> = filter Q s"
    by (simp only: filter_dropWhile_skip [of isWhiteSpace Q, OF assms])
  finally show ?thesis .
qed

lemma sanitizeInput_filter: "sanitizeInput input = filter isLowerAZ (toLowerCase input)"
proof -
  have "filter (isLowerAZ \<circ> lowerChar) (trim input) = filter (isLowerAZ \<circ> lowerChar) input"
    by (rule filter_trim) (simp add: whitespace_not_letter)
  then show ?thesis
    by (simp add: sanitizeInput_def toLowerCase_def filter_map)
qed

lemma sanitizeInput_empty_iff:
  "sanitizeInput input = [] \<longleftrightarrow> (\<forall>c \<in> set input. \<not> isLowerAZ (lowerChar c))"
  by (simp add: sanitizeInput_filter toLowerCase_def filter_empty_conv)

lemma set_dictionary: "set (dictionary env) = set (baseDict env @ alt env)"
  by (auto simp: dictionary_def)

lemma endGame_solved: "solved (game (endGame now w)) = solved (game w)"
  by (simp add: endGame_def Let_def)

lemma showNextWord_solved: "solved (game (state_of (showNextWord now w))) = solved (game w)"
  by (simp add: showNextWord_def endGame_solved split: option.splits)

lemma handleWrongAnswer_solved: "solved (game (handleWrongAnswer now c w)) = solved (game w)"
  by (simp add: handleWrongAnswer_def Let_def endGame_solved)

lemma handleCorrectAnswer_solved:
  "solved (game (handleCorrectAnswer guess w)) = solved (game w) @ [guess]"
  by (simp add: handleCorrectAnswer_def Let_def)

lemma submitAnswer_solved:
  assumes "isGameActive w"
    and "nth_opt (selectedWords (game w)) (currentWord (game w)) = Some target"
  shows "solved (game (state_of (submitAnswer env now (Some raw) w)))
       = (if sanitizeInput raw \<in> set (dictionary env)
             \<and> sameLetters (sanitizeInput raw) (toLowerCase target)
             \<and> length (sanitizeInput raw) > 0
          then solved (game w) @ [sanitizeInput raw] else solved (game w))"
  using assms
  by (simp add: submitAnswer_def Let_def showNextWord_solved handleWrongAnswer_solved
      handleCorrectAnswer_solved)

lemma length_shuffleFrom: "length (shuffleFrom rnd i xs) = length xs"
  by (induction i arbitrary: xs) (simp_all add: Let_def)

lemma length_shuffleArray: "length (shuffleArray rnd xs) = length xs"
  by (simp add: shuffleArray_def length_shuffleFrom)

lemma mset_shuffleFrom: "i < length xs \<Longrightarrow> mset (shuffleFrom rnd i xs) = mset xs"
proof (induction i arbitrary: xs)
  case 0
  then show ?case by simp
next
  case (Suc i)
  let ?j = "rnd (Suc i) mod (Suc i + 1)"
  have "?j < Suc i + 1" by (rule mod_less_divisor) simp
  then have j: "?j < length xs"
    using Suc.prems by linarith
  have "mset (xs[Suc i := xs ! ?j, ?j := xs ! Suc i]) = mset xs"
    using mset_swap [OF j Suc.prems] .
  moreover have "i < length (xs[Suc i := xs ! ?j, ?j := xs ! Suc i])"
    using Suc.prems by simp
  ultimately show ?case
    using Suc.IH [of "xs[Suc i := xs ! ?j, ?j := xs ! Suc i]"] by (simp add: Let_def)
qed

lemma mset_shuffleArray: "mset (shuffleArray rnd xs) = mset xs"
proof (cases xs)
  case Nil
  then show ?thesis by (simp add: shuffleArray_def)
next
  case (Cons a list)
  then show ?thesis by (simp add: shuffleArray_def mset_shuffleFrom)
qed

lemma showNextWord_state:
  "state_of (showNextWord now w)
   = (if currentWord (game w) \<ge> totalWords (game w) then endGame now w else w)"
  by (simp add: showNextWord_def split: option.splits)

lemma mset_sortRandom: "mset (sortRandom ks xs) = mset xs"
proof (induction ks arbitrary: xs)
  case Nil
  then show ?case by simp
next
  case (Cons k ks)
  show ?case
  proof (cases "xs = []")
    case True
    then show ?thesis by simp
  next
    case False
    let ?i = "k mod length xs"
    have i: "?i < length xs" using False by simp
    have "mset xs = mset (take ?i xs @ xs ! ?i # drop (Suc ?i) xs)"
      using id_take_nth_drop [OF i] by simp
    then show ?thesis
      using False Cons.IH [of "take ?i xs @ drop (Suc ?i) xs"] by (simp add: Let_def)
  qed
qed

lemma scrambleLoop_again:
  "scrambled = word \<and> attempts < 10 \<Longrightarrow>
   scrambleLoop picks word scrambled attempts
   = scrambleLoop picks word (sortRandom (picks (Suc attempts)) word) (Suc attempts)"
  by (subst scrambleLoop.simps) simp

lemma scrambleLoop_stop:
  "\<not> (scrambled = word \<and> attempts < 10) \<Longrightarrow>
   scrambleLoop picks word scrambled attempts = scrambled"
  by (subst scrambleLoop.simps) auto

lemma scrambleLoop_mset:
  "mset scrambled = mset word \<Longrightarrow> mset (scrambleLoop picks word scrambled attempts) = mset word"
proof (induction picks word scrambled attempts rule: scrambleLoop.induct)
  case (1 picks word scrambled attempts)
  show ?case
  proof (cases "scrambled = word \<and> attempts < 10")
    case True
    have "mset (scrambleLoop picks word (sortRandom (picks (Suc attempts)) word) (Suc attempts))
        = mset word"
      using True by (intro "1.IH") (simp_all add: mset_sortRandom)
    then show ?thesis
      unfolding scrambleLoop_again [OF True] .
  next
    case False
    then show ?thesis
      using "1.prems" by (simp add: scrambleLoop_stop)
  qed
qed

lemma scrambleLoop_same:
  "attempts \<le> 10 \<Longrightarrow>
   scrambleLoop picks word scrambled attempts = word
   \<longleftrightarrow> scrambled = word \<and> (\<forall>n \<in> {attempts<..10}. sortRandom (picks n) word = word)"
proof (induction picks word scrambled attempts rule: scrambleLoop.induct)
  case (1 picks word scrambled attempts)
  show ?case
  proof (cases "scrambled = word \<and> attempts < 10")
    case True
    then have le: "Suc attempts \<le> 10" by simp
    have split: "{attempts<..10} = insert (Suc attempts) {Suc attempts<..10}"
      using le by auto
    have "scrambleLoop picks word (sortRandom (picks (Suc attempts)) word) (Suc attempts) = word
      \<longleftrightarrow> sortRandom (picks (Suc attempts)) word = word
          \<and> (\<forall>n \<in> {Suc attempts<..10}. sortRandom (picks n) word = word)"
      using True le by (intro "1.IH") simp_all
    then show ?thesis
      unfolding scrambleLoop_again [OF True] split using True by simp
  next
    case False
    have eq: "scrambleLoop picks word scrambled attempts = scrambled"
      using False by (rule scrambleLoop_stop)
    show ?thesis
    proof (cases "scrambled = word")
      case True
      with False "1.prems" have "attempts = 10" by simp
      with eq True show ?thesis by simp
    next
      case False
      with eq show ?thesis by simp
    qed
  qed
qed

lemma fold_addMissed:
  assumes "distinct sel"
    and "set ms \<subseteq> Some ` set (take cw sel)"
    and "set slv \<inter> set (drop cw sel) = {}"
  shows "cw + k \<le> length sel \<Longrightarrow>
    fold (addMissed sel slv) [cw..<cw + k] ms = ms @ map Some (take k (drop cw sel))"
proof (induction k)
  case 0
  then show ?case by simp
next
  case (Suc k)
  let ?n = "cw + k"
  have n: "?n < length sel" using Suc.prems by simp
  have IH: "fold (addMissed sel slv) [cw..<?n] ms = ms @ map Some (take k (drop cw sel))"
    using Suc by simp
  have nth: "nth_opt sel ?n = Some (sel ! ?n)"
    using n by (simp add: nth_opt_def)
  have k: "k < length (drop cw sel)"
    using n by simp
  have seln: "drop cw sel ! k = sel ! ?n"
    using n by simp
  have tk: "take (Suc k) (drop cw sel) = take k (drop cw sel) @ [sel ! ?n]"
    using take_Suc_conv_app_nth [OF k] unfolding seln .
  have "distinct (take cw sel @ drop cw sel)"
    using assms(1) by simp
  then have d1: "set (take cw sel) \<inter> set (drop cw sel) = {}" and d2: "distinct (drop cw sel)"
    unfolding distinct_append by blast+
  have mem: "sel ! ?n \<in> set (drop cw sel)"
    using nth_mem [OF k] unfolding seln .
  have notin1: "sel ! ?n \<notin> set (take cw sel)"
    using d1 mem by blast
  have "distinct (take (Suc k) (drop cw sel))"
    using d2 by (rule distinct_take)
  then have notin2: "sel ! ?n \<notin> set (take k (drop cw sel))"
    unfolding tk by simp
  have notin3: "sel ! ?n \<notin> set slv"
    using assms(3) mem by blast
  have a: "Some (sel ! ?n) \<notin> set (ms @ map Some (take k (drop cw sel)))"
    using notin1 notin2 assms(2) by auto
  have b: "Some (sel ! ?n) \<notin> set (map Some slv)"
    using notin3 by auto
  have "[cw..<cw + Suc k] = [cw..<?n] @ [?n]"
    by simp
  then have "fold (addMissed sel slv) [cw..<cw + Suc k] ms
      = addMissed sel slv ?n (fold (addMissed sel slv) [cw..<?n] ms)"
    by (simp only: fold_append fold_simps comp_apply)
  also have "\<dots> = addMissed sel slv ?n (ms @ map Some (take k (drop cw sel)))"
    by (simp only: IH)
  also have "\<dots> = (ms @ map Some (take k (drop cw sel))) @ [Some (sel ! ?n)]"
    unfolding addMissed_def nth Let_def using a b by (simp only: if_True simp_thms)
  finally show ?case
    unfolding tk by simp
qed

lemma endGame_inactive: "\<not> isGameActive (endGame now w)"
  by (simp add: endGame_def Let_def)

lemma roundInv_inactive: "\<not> isGameActive w \<Longrightarrow> roundInv env w"
  by (simp add: roundInv_def)

lemma roundInv_endGame: "roundInv env (endGame now w)"
  by (simp add: roundInv_inactive endGame_inactive)

lemma roundInv_updateGame: "roundInv env w \<Longrightarrow> roundInv env (updateGame now w)"
  by (simp add: updateGame_def Let_def roundInv_endGame)

lemma roundInv_destroy: "roundInv env (destroy w)"
  by (simp add: roundInv_def destroy_def)

lemma roundInv_resetGameState: "roundInv env (resetGameState w)"
  by (simp add: roundInv_def resetGameState_def defaultGame_def)

lemma inProgress_cong:
  assumes "totalWords g' = totalWords g" and "selectedWords g' = selectedWords g"
    and "currentWord g' = currentWord g" and "lives g' = lives g"
    and "missed g' = missed g" and "solved g' = solved g"
  shows "inProgress env g' = inProgress env g"
  by (simp add: inProgress_def assms)

lemma roundInv_useHint: "roundInv env w \<Longrightarrow> roundInv env (state_of (useHint w))"
proof -
  assume inv: "roundInv env w"
  define w1 where "w1 = w\<lparr>game := (game w)\<lparr>hints := hints (game w) - 1\<rparr>\<rparr>"
  have g1: "inProgress env (game w1) = inProgress env (game w)"
    by (rule inProgress_cong) (simp_all add: w1_def)
  have i1: "roundInv env w1"
    using inv g1 by (simp add: roundInv_def w1_def)
  have "state_of (useHint w) = w \<or> state_of (useHint w) = w1
      \<or> (\<exists>m. state_of (useHint w) = w1\<lparr>currentHintsUsed := m\<rparr>)"
    by (auto simp add: useHint_def Let_def w1_def split: option.splits)
  moreover have "roundInv env (w1\<lparr>currentHintsUsed := m\<rparr>)" for m
    using i1 by (simp add: roundInv_def)
  ultimately show ?thesis
    using inv i1 by auto
qed

lemma inProgress_advance:
  assumes g: "inProgress env g"
    and more: "Suc (currentWord g) < totalWords g"
    and same: "totalWords g' = totalWords g" "selectedWords g' = selectedWords g"
      "currentWord g' = Suc (currentWord g)" "lives g' = lives g"
    and new: "(missed g' = missed g @ [Some (selectedWords g ! currentWord g)]
                \<and> solved g' = solved g)
            \<or> (missed g' = missed g \<and> solved g' = solved g @ [guess]
                \<and> guess \<in> set (dictionary env)
                \<and> lettersSignature guess = lettersSignature (selectedWords g ! currentWord g))"
  shows "inProgress env g'"
proof -
  have len: "currentWord g < length (selectedWords g)"
    using g more by (simp add: inProgress_def)
  have tk: "take (Suc (currentWord g)) (selectedWords g)
      = take (currentWord g) (selectedWords g) @ [selectedWords g ! currentWord g]"
    using len by (rule take_Suc_conv_app_nth)
  have sub: "set (missed g) \<subseteq> Some ` set (take (currentWord g) (selectedWords g))"
    and dic: "set (solved g) \<subseteq> set (dictionary env)"
    and ms: "mset (map lettersSignature (solved g))
        + mset (map (lettersSignature \<circ> the) (missed g))
       = mset (map lettersSignature (take (currentWord g) (selectedWords g)))"
    using g by (simp_all add: inProgress_def)
  have 1: "set (missed g') \<subseteq> Some ` set (take (currentWord g') (selectedWords g'))"
    using new sub unfolding same tk by auto
  have 2: "set (solved g') \<subseteq> set (dictionary env)"
    using new dic by auto
  have 3: "mset (map lettersSignature (solved g'))
        + mset (map (lettersSignature \<circ> the) (missed g'))
       = mset (map lettersSignature (take (currentWord g') (selectedWords g')))"
    using new ms unfolding same tk by auto
  show ?thesis
    unfolding inProgress_def using g more 1 2 3 by (simp add: inProgress_def same)
qed

lemma roundInv_showNextWord: "roundInv env w \<Longrightarrow> roundInv env (state_of (showNextWord now w))"
  by (simp add: showNextWord_state roundInv_endGame)

lemma roundInv_skipWord:
  assumes inv: "roundInv env w"
  shows "roundInv env (state_of (skipWord now w))"
proof -
  define g2 where "g2 = (game w)\<lparr>missed := missed (game w)
        @ [nth_opt (selectedWords (game w)) (currentWord (game w))],
      currentWord := currentWord (game w) + 1, wordsPlayed := wordsPlayed (game w) + 1\<rparr>"
  define w2 where "w2 = w\<lparr>game := g2\<rparr>"
  have sk: "state_of (skipWord now w)
      = (if currentWord g2 \<ge> totalWords g2 then endGame now w2 else w2)"
    by (simp add: skipWord_def Let_def g2_def w2_def showNextWord_state)
  show ?thesis
  proof (cases "currentWord g2 \<ge> totalWords g2")
    case True
    then show ?thesis by (simp add: sk roundInv_endGame)
  next
    case False
    have "roundInv env w2"
      unfolding roundInv_def
    proof (intro impI)
      assume "isGameActive w2"
      then have "isGameActive w" by (simp add: w2_def)
      with inv consider "selectedWords (game w) = []" | "inProgress env (game w)"
        unfolding roundInv_def by blast
      then show "selectedWords (game w2) = [] \<or> inProgress env (game w2)"
      proof cases
        case 1
        then show ?thesis by (simp add: w2_def g2_def)
      next
        case 2
        then have "currentWord (game w) < length (selectedWords (game w))"
          by (simp add: inProgress_def)
        then have nth: "nth_opt (selectedWords (game w)) (currentWord (game w))
            = Some (selectedWords (game w) ! currentWord (game w))"
          by (simp add: nth_opt_def)
        have "inProgress env g2"
          using 2
        proof (rule inProgress_advance)
          show "Suc (currentWord (game w)) < totalWords (game w)"
            using False by (simp add: g2_def)
        qed (simp_all add: g2_def nth)
        then show ?thesis by (simp add: w2_def)
      qed
    qed
    with False show ?thesis by (simp add: sk)
  qed
qed

lemma handleWrongAnswer_alive:
  "1 < lives (game w) \<Longrightarrow>
   handleWrongAnswer now c w = w\<lparr>game := (game w)\<lparr>lives := lives (game w) - 1, streak := 0\<rparr>\<rparr>"
  by (simp add: handleWrongAnswer_def Let_def)

lemma handleWrongAnswer_dead:
  "lives (game w) \<le> 1 \<Longrightarrow>
   handleWrongAnswer now c w
   = endGame now (w\<lparr>game := (game w)\<lparr>lives := lives (game w) - 1, streak := 0,
       missed := fold (addMissed (selectedWords (game w)) (solved (game w)))
                   [currentWord (game w) ..< totalWords (game w)] (missed (game w))\<rparr>\<rparr>)"
  by (simp add: handleWrongAnswer_def Let_def)

lemma roundInv_handleWrongAnswer:
  assumes inv: "roundInv env w"
  shows "roundInv env (handleWrongAnswer now c w)"
proof (cases "1 < lives (game w)")
  case True
  let ?g = "(game w)\<lparr>lives := lives (game w) - 1, streak := 0\<rparr>"
  have "inProgress env (game w) \<Longrightarrow> inProgress env ?g"
    using True by (simp add: inProgress_def)
  then show ?thesis
    using inv unfolding handleWrongAnswer_alive [OF True] roundInv_def by auto
next
  case False
  then have "lives (game w) \<le> 1" by simp
  then show ?thesis
    by (simp only: handleWrongAnswer_dead roundInv_endGame)
qed

lemma submitAnswer_state:
  "state_of (submitAnswer env now input w)
   = (case input of None \<Rightarrow> w
      | Some raw \<Rightarrow>
         (if \<not> isGameActive w then w
          else (case nth_opt (selectedWords (game w)) (currentWord (game w)) of
                  None \<Rightarrow> w
                | Some target \<Rightarrow>
                   (if sanitizeInput raw \<in> set (dictionary env)
                       \<and> sameLetters (sanitizeInput raw) (toLowerCase target)
                       \<and> sanitizeInput raw \<noteq> []
                    then state_of (showNextWord now
                           ((handleCorrectAnswer (sanitizeInput raw) w)
                              \<lparr>game := (game (handleCorrectAnswer (sanitizeInput raw) w))
                                 \<lparr>currentWord := currentWord (game w) + 1,
                                  wordsPlayed := wordsPlayed (game w) + 1\<rparr>\<rparr>))
                    else if sanitizeInput raw \<noteq> []
                         then handleWrongAnswer now (toLowerCase target) w
                         else w))))"
  by (simp add: submitAnswer_def Let_def handleCorrectAnswer_def split: option.splits)

lemma roundInv_accept:
  assumes inv: "roundInv env w"
    and act: "isGameActive w"
    and tgt: "nth_opt (selectedWords (game w)) (currentWord (game w)) = Some target"
    and dic: "guess \<in> set (dictionary env)"
    and same: "sameLetters guess (toLowerCase target)"
  shows "roundInv env (state_of (showNextWord now
           ((handleCorrectAnswer guess w)
              \<lparr>game := (game (handleCorrectAnswer guess w))
                 \<lparr>currentWord := currentWord (game w) + 1,
                  wordsPlayed := wordsPlayed (game w) + 1\<rparr>\<rparr>)))"
    (is "roundInv env (state_of (showNextWord now ?w2))")
proof (cases "currentWord (game ?w2) \<ge> totalWords (game ?w2)")
  case True
  then show ?thesis
    by (simp only: showNextWord_state if_True roundInv_endGame)
next
  case False
  have ne: "selectedWords (game w) \<noteq> []" and t: "target = selectedWords (game w) ! currentWord (game w)"
    using tgt by (auto simp add: nth_opt_def split: if_splits)
  with inv act have g: "inProgress env (game w)"
    by (simp add: roundInv_def)
  have "inProgress env (game ?w2)"
    using g
  proof (rule inProgress_advance)
    show "Suc (currentWord (game w)) < totalWords (game w)"
      using False by (simp add: handleCorrectAnswer_def Let_def)
    show "(missed (game ?w2) = missed (game w) @ [Some (selectedWords (game w) ! currentWord (game w))]
           \<and> solved (game ?w2) = solved (game w))
        \<or> (missed (game ?w2) = missed (game w) \<and> solved (game ?w2) = solved (game w) @ [guess]
           \<and> guess \<in> set (dictionary env)
           \<and> lettersSignature guess = lettersSignature (selectedWords (game w) ! currentWord (game w)))"
      using dic same unfolding sameLetters_def lettersSignature_lower t
      by (simp add: handleCorrectAnswer_def Let_def)
  qed (simp_all add: handleCorrectAnswer_def Let_def)
  then have "roundInv env ?w2"
    by (simp add: roundInv_def)
  with False show ?thesis
    by (simp only: showNextWord_state if_False)
qed

lemma roundInv_submitAnswer:
  assumes inv: "roundInv env w"
  shows "roundInv env (state_of (submitAnswer env now input w))"
proof (cases input)
  case None
  then show ?thesis using inv by (simp add: submitAnswer_state)
next
  case (Some raw)
  show ?thesis
  proof (cases "isGameActive w")
    case False
    then show ?thesis using inv Some by (simp add: submitAnswer_state)
  next
    case act: True
    show ?thesis
    proof (cases "nth_opt (selectedWords (game w)) (currentWord (game w))")
      case None
      then show ?thesis using inv Some act by (simp add: submitAnswer_state)
    next
      case tgt: (Some target)
      show ?thesis
      proof (cases "sanitizeInput raw \<in> set (dictionary env)
                       \<and> sameLetters (sanitizeInput raw) (toLowerCase target)
                       \<and> sanitizeInput raw \<noteq> []")
        case True
        then have "roundInv env (state_of (showNextWord now
           ((handleCorrectAnswer (sanitizeInput raw) w)
              \<lparr>game := (game (handleCorrectAnswer (sanitizeInput raw) w))
                 \<lparr>currentWord := currentWord (game w) + 1,
                  wordsPlayed := wordsPlayed (game w) + 1\<rparr>\<rparr>)))"
          using roundInv_accept [OF inv act tgt] by blast
        then show ?thesis
          unfolding submitAnswer_state Some using act tgt True by simp
      next
        case False
        then show ?thesis
          unfolding submitAnswer_state Some using act tgt inv
          by (auto simp add: roundInv_handleWrongAnswer)
      qed
    qed
  qed
qed

lemma roundInv_reachableFrom:
  "reachableFrom env s w \<Longrightarrow> roundInv env s \<Longrightarrow> roundInv env w"
proof (induction rule: reachableFrom.induct)
  case r_refl
  then show ?case .
next
  case (r_submit w now input)
  then show ?case by (simp add: roundInv_submitAnswer)
next
  case (r_hint w)
  then show ?case by (simp add: roundInv_useHint)
next
  case (r_skip w now)
  then show ?case by (simp add: roundInv_skipWord)
next
  case (r_tick w now)
  then show ?case by (simp add: roundInv_updateGame)
next
  case (r_end w now)
  then show ?case by (simp add: roundInv_endGame)
next
  case (r_reset w)
  then show ?case by (simp add: roundInv_resetGameState)
next
  case (r_destroy w)
  then show ?case by (simp add: roundInv_destroy)
qed

lemma roundInv_startGame:
  assumes enough: "words (difficultyConfig d) \<le> length (eligible env (difficultyConfig d))"
    and nocoll: "distinct (map lettersSignature (eligible env (difficultyConfig d)))"
  shows "roundInv env (state_of (startGame env d now rnd w))"
proof -
  let ?c = "difficultyConfig d"
  let ?sel = "take (words ?c) (shuffleArray rnd (eligible env ?c))"
  define g where "g = \<lparr>difficulty = d, totalWords = words ?c,
       timeLimit = time ?c, currentWord = 0,
       score = 0, lives = 3, hints = 3, streak = 0, longestStreak = 0,
       startTime = Some now, selectedWords = ?sel,
       solved = [], missed = [], wordsPlayed = 0\<rparr>"
  define w1 where "w1 = w\<lparr>game := g, currentHintsUsed := Map.empty, isGameActive := True\<rparr>"
  have pos: "0 < words ?c"
    by (cases d) simp_all
  have sg: "state_of (startGame env d now rnd w) = w1"
    using pos by (simp add: startGame_def Let_def g_def w1_def showNextWord_state)
  have "mset (map lettersSignature (shuffleArray rnd (eligible env ?c)))
      = mset (map lettersSignature (eligible env ?c))"
    by (simp add: mset_shuffleArray)
  then have "distinct (map lettersSignature (shuffleArray rnd (eligible env ?c)))"
    using nocoll mset_eq_imp_distinct_iff by blast
  then have "distinct (take (words ?c) (map lettersSignature (shuffleArray rnd (eligible env ?c))))"
    by (rule distinct_take)
  then have dist: "distinct (map lettersSignature ?sel)"
    by (simp add: take_map)
  have len: "length ?sel = words ?c"
    using enough by (simp add: length_shuffleArray)
  have "inProgress env g"
    unfolding inProgress_def using dist len pos by (simp add: g_def)
  then show ?thesis
    unfolding sg by (simp add: roundInv_def w1_def)
qed

lemma endGame_lists:
  "solved (game (endGame now w)) = solved (game w)"
  "missed (game (endGame now w)) = missed (game w)"
  "selectedWords (game (endGame now w)) = selectedWords (game w)"
  "totalWords (game (endGame now w)) = totalWords (game w)"
  "lives (game (endGame now w)) = lives (game w)"
  "currentWord (game (endGame now w)) = currentWord (game w)"
  by (simp_all add: endGame_def Let_def)

lemma inProgress_final:
  assumes g: "inProgress env g"
  defines "ms \<equiv> fold (addMissed (selectedWords g) (solved g))
                   [currentWord g ..< totalWords g] (missed g)"
  shows "ms = missed g @ map Some (drop (currentWord g) (selectedWords g))"
    and "mset (map lettersSignature (solved g)) + mset (map (lettersSignature \<circ> the) ms)
       = mset (map lettersSignature (selectedWords g))"
proof -
  let ?sel = "selectedWords g" and ?cw = "currentWord g"
  have tot: "totalWords g = length ?sel" and cw: "?cw < length ?sel"
    and dsig: "distinct (map lettersSignature ?sel)"
    and sub: "set (missed g) \<subseteq> Some ` set (take ?cw ?sel)"
    and ms: "mset (map lettersSignature (solved g))
        + mset (map (lettersSignature \<circ> the) (missed g))
       = mset (map lettersSignature (take ?cw ?sel))"
    using g by (simp_all add: inProgress_def)
  have dsel: "distinct ?sel"
    using dsig by (simp add: distinct_map)
  have "distinct (map lettersSignature (take ?cw ?sel) @ map lettersSignature (drop ?cw ?sel))"
    using dsig by (simp flip: map_append)
  then have disj: "set (map lettersSignature (take ?cw ?sel))
        \<inter> set (map lettersSignature (drop ?cw ?sel)) = {}"
    unfolding distinct_append by blast
  have "set_mset (mset (map lettersSignature (solved g)))
      \<subseteq> set_mset (mset (map lettersSignature (take ?cw ?sel)))"
    unfolding ms [symmetric] by simp
  then have ssub: "lettersSignature ` set (solved g) \<subseteq> set (map lettersSignature (take ?cw ?sel))"
    by simp
  have sd: "set (solved g) \<inter> set (drop ?cw ?sel) = {}"
  proof (rule ccontr)
    assume "set (solved g) \<inter> set (drop ?cw ?sel) \<noteq> {}"
    then obtain x where x: "x \<in> set (solved g)" "x \<in> set (drop ?cw ?sel)" by blast
    then have "lettersSignature x \<in> set (map lettersSignature (take ?cw ?sel))"
      using ssub by blast
    moreover have "lettersSignature x \<in> set (map lettersSignature (drop ?cw ?sel))"
      using x(2) by simp
    ultimately show False using disj by blast
  qed
  have "?cw + (length ?sel - ?cw) \<le> length ?sel"
    using cw by simp
  from fold_addMissed [OF dsel sub sd this]
  have "fold (addMissed ?sel (solved g)) [?cw ..< ?cw + (length ?sel - ?cw)] (missed g)
      = missed g @ map Some (take (length ?sel - ?cw) (drop ?cw ?sel))" .
  moreover have "?cw + (length ?sel - ?cw) = length ?sel"
    using cw by simp
  ultimately show eq: "ms = missed g @ map Some (drop ?cw ?sel)"
    unfolding ms_def tot by simp
  have "mset (map (lettersSignature \<circ> the) ms)
      = mset (map (lettersSignature \<circ> the) (missed g)) + mset (map lettersSignature (drop ?cw ?sel))"
    unfolding eq by (simp add: comp_def)
  then have "mset (map lettersSignature (solved g)) + mset (map (lettersSignature \<circ> the) ms)
      = mset (map lettersSignature (take ?cw ?sel)) + mset (map lettersSignature (drop ?cw ?sel))"
    using ms by (simp add: ac_simps)
  also have "\<dots> = mset (map lettersSignature ?sel)"
    by (metis append_take_drop_id map_append mset_append)
  finally show "mset (map lettersSignature (solved g)) + mset (map (lettersSignature \<circ> the) ms)
       = mset (map lettersSignature ?sel)" .
qed

lemma matched_lists:
  assumes dsig: "distinct (map lettersSignature sel)"
    and sub: "set ms \<subseteq> Some ` set sel"
    and eq: "mset (map lettersSignature slv) + mset (map (lettersSignature \<circ> the) ms)
       = mset (map lettersSignature sel)"
  shows "length slv + length ms = length sel"
    and "distinct slv" and "distinct ms"
    and "\<forall>t \<in> set sel. (Some t \<in> set ms) \<noteq> (\<exists>s \<in> set slv. sameLetters s t)"
proof -
  have "size (mset (map lettersSignature slv) + mset (map (lettersSignature \<circ> the) ms))
      = size (mset (map lettersSignature sel))"
    using eq by simp
  then show "length slv + length ms = length sel"
    by simp
  have "mset (map lettersSignature slv @ map (lettersSignature \<circ> the) ms)
      = mset (map lettersSignature sel)"
    using eq by simp
  then have d: "distinct (map lettersSignature slv @ map (lettersSignature \<circ> the) ms)"
    using dsig mset_eq_imp_distinct_iff by blast
  then have d1: "distinct (map lettersSignature slv)"
    and d2: "distinct (map (lettersSignature \<circ> the) ms)"
    and disj: "set (map lettersSignature slv) \<inter> set (map (lettersSignature \<circ> the) ms) = {}"
    unfolding distinct_append by blast+
  show "distinct slv" using d1 by (simp add: distinct_map)
  show "distinct ms" using d2 by (simp add: distinct_map)
  have inj: "inj_on lettersSignature (set sel)"
    using dsig by (simp add: distinct_map)
  have cover: "set (map lettersSignature sel)
      = set (map lettersSignature slv) \<union> set (map (lettersSignature \<circ> the) ms)"
    using eq by (metis set_mset_mset set_mset_union)
  show "\<forall>t \<in> set sel. (Some t \<in> set ms) \<noteq> (\<exists>s \<in> set slv. sameLetters s t)"
  proof
    fix t
    assume t: "t \<in> set sel"
    show "(Some t \<in> set ms) \<noteq> (\<exists>s \<in> set slv. sameLetters s t)"
    proof (cases "Some t \<in> set ms")
      case True
      then have "lettersSignature t \<in> set (map (lettersSignature \<circ> the) ms)"
        by force
      then have "lettersSignature t \<notin> set (map lettersSignature slv)"
        using disj by blast
      then have "\<not> (\<exists>s \<in> set slv. sameLetters s t)"
        unfolding sameLetters_def set_map by (metis imageI)
      with True show ?thesis by simp
    next
      case False
      have "lettersSignature t \<notin> set (map (lettersSignature \<circ> the) ms)"
      proof
        assume "lettersSignature t \<in> set (map (lettersSignature \<circ> the) ms)"
        then obtain m where m: "m \<in> set ms" "lettersSignature (the m) = lettersSignature t"
          by auto
        then obtain t' where t': "m = Some t'" "t' \<in> set sel"
          using sub by blast
        with m inj t have "t' = t"
          by (simp add: inj_on_def)
        with m t' False show False by simp
      qed
      moreover have "lettersSignature t \<in> set (map lettersSignature sel)"
        using t by simp
      ultimately have "lettersSignature t \<in> set (map lettersSignature slv)"
        unfolding cover by blast
      then have "\<exists>s \<in> set slv. sameLetters s t"
        by (auto simp add: sameLetters_def)
      with False show ?thesis by simp
    qed
  qed
qed

section \<open>Acceptance of a guess\<close>

text \<open>
  C1. In an active session whose current index holds a target word, \<open>submitAnswer\<close>
  accepts the guess, that is, appends the sanitized guess to \<open>solved\<close>, if and only if
  the sanitized guess is not empty, has the letter signature of the target word, and
  occurs in the base word list followed by the alternate words.
\<close>

theorem submitAnswer_accepts_iff:
  assumes "isGameActive w"
    and "nth_opt (selectedWords (game w)) (currentWord (game w)) = Some target"
  shows "solved (game (state_of (submitAnswer env now (Some raw) w)))
           = solved (game w) @ [sanitizeInput raw]
     \<longleftrightarrow> sanitizeInput raw \<noteq> []
         \<and> lettersSignature (sanitizeInput raw) = lettersSignature target
         \<and> sanitizeInput raw \<in> set (baseDict env @ alt env)"
  unfolding submitAnswer_solved [OF assms] set_dictionary sameLetters_def lettersSignature_lower
  by auto

theorem submitAnswer_accepts_iff_witness:
  "let env = \<lparr>SAFE_WORDS = Some [''mile'', ''tree'', ''bird'', ''frog'', ''lamp''],
                WORDS = [], ALTERNATE_WORDS = Some [''lime'']\<rparr>;
       w = state_of (startGame env Easy 0 id (initWorld 0))
   in isGameActive w
    \<and> nth_opt (selectedWords (game w)) (currentWord (game w)) = Some ''mile''
    \<and> solved (game (state_of (submitAnswer env 1000 (Some '' LiMe!'') w)))
      = solved (game w) @ [sanitizeInput '' LiMe!'']"
proof -
  let ?env = "\<lparr>SAFE_WORDS = Some [''mile'', ''tree'', ''bird'', ''frog'', ''lamp''],
      WORDS = [], ALTERNATE_WORDS = Some [''lime'']\<rparr>"
  let ?w = "state_of (startGame ?env Easy 0 id (initWorld 0))"
  have a: "isGameActive ?w"
    by code_simp
  have b: "nth_opt (selectedWords (game ?w)) (currentWord (game ?w)) = Some ''mile''"
    by code_simp
  have c: "sanitizeInput '' LiMe!'' \<noteq> []
      \<and> lettersSignature (sanitizeInput '' LiMe!'') = lettersSignature ''mile''
      \<and> sanitizeInput '' LiMe!'' \<in> set (baseDict ?env @ alt ?env)"
    by code_simp
  from iffD2 [OF submitAnswer_accepts_iff [OF a b] c] a b show ?thesis
    unfolding Let_def by blast
qed

text \<open>
  C4. A guess whose sanitized form is empty leaves the whole state as it is, in every
  session; where the current index holds a word the call returns normally.
\<close>

theorem submitAnswer_empty_noop:
  assumes "sanitizeInput raw = []"
  shows "state_of (submitAnswer env now (Some raw) w) = w
    \<and> (currentWord (game w) < length (selectedWords (game w))
        \<longrightarrow> submitAnswer env now (Some raw) w = Returned w)"
proof (cases "nth_opt (selectedWords (game w)) (currentWord (game w))")
  case None
  then show ?thesis
    using assms by (simp add: submitAnswer_def nth_opt_def split: if_splits)
next
  case (Some target)
  then show ?thesis
    using assms by (simp add: submitAnswer_def)
qed

theorem submitAnswer_empty_noop_witness:
  "let env = \<lparr>SAFE_WORDS = Some [''mile'', ''tree'', ''bird'', ''frog'', ''lamp''],
                WORDS = [], ALTERNATE_WORDS = Some [''lime'']\<rparr>;
       w = state_of (startGame env Easy 0 id (initWorld 0))
   in sanitizeInput '' 12 !?'' = [] \<and> isGameActive w
    \<and> submitAnswer env 1000 (Some '' 12 !?'') w = Returned w"
proof -
  let ?env = "\<lparr>SAFE_WORDS = Some [''mile'', ''tree'', ''bird'', ''frog'', ''lamp''],
      WORDS = [], ALTERNATE_WORDS = Some [''lime'']\<rparr>"
  let ?w = "state_of (startGame ?env Easy 0 id (initWorld 0))"
  have a: "sanitizeInput '' 12 !?'' = []"
    by code_simp
  have b: "isGameActive ?w"
    by code_simp
  have c: "currentWord (game ?w) < length (selectedWords (game ?w))"
    by code_simp
  from submitAnswer_empty_noop [OF a, of ?env 1000 ?w] a b c show ?thesis
    unfolding Let_def by blast
qed

section \<open>Wrong answers\<close>

text \<open>
  C5. In an active session with more than one life, a guess that is not empty and is
  rejected costs exactly one life and resets the streak; nothing else changes: the
  longest streak, the current index, \<open>solved\<close> and \<open>missed\<close> stay as they were.
\<close>

theorem submitAnswer_wrong_keeps_word:
  assumes "isGameActive w"
    and "nth_opt (selectedWords (game w)) (currentWord (game w)) = Some target"
    and "sanitizeInput raw \<noteq> []"
    and "\<not> (sanitizeInput raw \<in> set (dictionary env)
            \<and> sameLetters (sanitizeInput raw) (toLowerCase target))"
    and "1 < lives (game w)"
  shows "submitAnswer env now (Some raw) w
       = Returned (w\<lparr>game := (game w)\<lparr>lives := lives (game w) - 1, streak := 0\<rparr>\<rparr>)"
proof -
  have "handleWrongAnswer now (toLowerCase target) w
      = w\<lparr>game := (game w)\<lparr>lives := lives (game w) - 1, streak := 0\<rparr>\<rparr>"
    using assms(5) by (simp add: handleWrongAnswer_def Let_def)
  then show ?thesis
    using assms(1-4) by (auto simp add: submitAnswer_def Let_def)
qed

theorem submitAnswer_wrong_keeps_word_witness:
  "let env = \<lparr>SAFE_WORDS = Some [''mile'', ''tree'', ''bird'', ''frog'', ''lamp''],
                WORDS = [], ALTERNATE_WORDS = Some [''lime'']\<rparr>;
       w = state_of (startGame env Easy 0 id (initWorld 0))
   in lives (game w) = 3
    \<and> submitAnswer env 1000 (Some ''lame'') w
      = Returned (w\<lparr>game := (game w)\<lparr>lives := 2, streak := 0\<rparr>\<rparr>)"
proof -
  let ?env = "\<lparr>SAFE_WORDS = Some [''mile'', ''tree'', ''bird'', ''frog'', ''lamp''],
      WORDS = [], ALTERNATE_WORDS = Some [''lime'']\<rparr>"
  let ?w = "state_of (startGame ?env Easy 0 id (initWorld 0))"
  have a: "isGameActive ?w"
    by code_simp
  have b: "nth_opt (selectedWords (game ?w)) (currentWord (game ?w)) = Some ''mile''"
    by code_simp
  have c: "sanitizeInput ''lame'' \<noteq> []"
    by code_simp
  have d: "\<not> (sanitizeInput ''lame'' \<in> set (dictionary ?env)
      \<and> sameLetters (sanitizeInput ''lame'') (toLowerCase ''mile''))"
    by code_simp
  have e: "lives (game ?w) = 3"
    by code_simp
  then have f: "1 < lives (game ?w)"
    by simp
  from submitAnswer_wrong_keeps_word [OF a b c d f, of 1000] e show ?thesis
    unfolding Let_def by simp
qed

section \<open>End of the round\<close>

text \<open>
  C2. \<open>endGame\<close> sets the score to 0 when nothing was solved; otherwise it adds the
  remaining seconds (never below 0), ten times the longest streak, and 100 exactly when
  the number of solved words is \<open>totalWords\<close>.
\<close>

theorem endGame_final_score:
  "score (game (endGame now w)) =
     (if solved (game w) = [] then 0
      else score (game w) + max 0 (timeLimit (game w) - elapsedSeconds now (game w))
           + longestStreak (game w) * 10
           + (if length (solved (game w)) = totalWords (game w) then 100 else 0))"
  by (simp add: endGame_def Let_def)

text \<open>Five words solved in a row with 119 seconds left: 500 + 119 + 50 + 100.\<close>

theorem endGame_final_score_witness:
  "let w = (initWorld 0)\<lparr>game := defaultGame\<lparr>currentWord := 5, score := 500, streak := 5,
               longestStreak := 5, startTime := Some 0,
               selectedWords := [''mile'', ''tree'', ''bird'', ''frog'', ''lamp''],
               solved := [''mile'', ''tree'', ''bird'', ''frog'', ''lamp''],
               wordsPlayed := 5\<rparr>\<rparr>
   in score (game (endGame 1000 w)) = 769"
proof -
  let ?w = "(initWorld 0)\<lparr>game := defaultGame\<lparr>currentWord := 5, score := 500, streak := 5,
               longestStreak := 5, startTime := Some 0,
               selectedWords := [''mile'', ''tree'', ''bird'', ''frog'', ''lamp''],
               solved := [''mile'', ''tree'', ''bird'', ''frog'', ''lamp''],
               wordsPlayed := 5\<rparr>\<rparr>"
  have "score (game (endGame 1000 ?w)) =
     (if solved (game ?w) = [] then 0
      else score (game ?w) + max 0 (timeLimit (game ?w) - elapsedSeconds 1000 (game ?w))
           + longestStreak (game ?w) * 10
           + (if length (solved (game ?w)) = totalWords (game ?w) then 100 else 0))"
    by (rule endGame_final_score)
  also have "\<dots> = 769"
    by code_simp
  finally show ?thesis
    unfolding Let_def .
qed

text \<open>
  C6. With the perfect popup not yet shown, \<open>endGame\<close> requests it if and only if the
  number of solved words is \<open>totalWords\<close> and all three hints are left. A round of at
  least one word in which every word was solved and a hint was used does not get the
  popup and still gets the bonus of 100.
\<close>

theorem endGame_perfect_flag:
  assumes "\<not> perfectPopup w"
  shows "(perfectPopup (endGame now w)
            \<longleftrightarrow> length (solved (game w)) = totalWords (game w) \<and> hints (game w) = 3)
       \<and> (length (solved (game w)) = totalWords (game w) \<and> 0 < totalWords (game w)
            \<and> hints (game w) \<noteq> 3
          \<longrightarrow> \<not> perfectPopup (endGame now w)
              \<and> score (game (endGame now w))
                = score (game w) + max 0 (timeLimit (game w) - elapsedSeconds now (game w))
                  + longestStreak (game w) * 10 + 100)"
  using assms by (auto simp add: endGame_def Let_def)

theorem endGame_perfect_flag_witness:
  "let w = (initWorld 0)\<lparr>game := defaultGame\<lparr>currentWord := 5, score := 500, hints := 2,
               streak := 5, longestStreak := 5, startTime := Some 0,
               selectedWords := [''mile'', ''tree'', ''bird'', ''frog'', ''lamp''],
               solved := [''lime'', ''tree'', ''bird'', ''frog'', ''lamp''],
               wordsPlayed := 5\<rparr>\<rparr>
   in \<not> perfectPopup w \<and> \<not> perfectPopup (endGame 1000 w)
    \<and> score (game (endGame 1000 w)) = 769"
proof -
  let ?w = "(initWorld 0)\<lparr>game := defaultGame\<lparr>currentWord := 5, score := 500, hints := 2,
               streak := 5, longestStreak := 5, startTime := Some 0,
               selectedWords := [''mile'', ''tree'', ''bird'', ''frog'', ''lamp''],
               solved := [''lime'', ''tree'', ''bird'', ''frog'', ''lamp''],
               wordsPlayed := 5\<rparr>\<rparr>"
  have a: "\<not> perfectPopup ?w"
    by code_simp
  have b: "length (solved (game ?w)) = totalWords (game ?w) \<and> 0 < totalWords (game ?w)
      \<and> hints (game ?w) \<noteq> 3"
    by code_simp
  have c: "score (game ?w) + max 0 (timeLimit (game ?w) - elapsedSeconds 1000 (game ?w))
      + longestStreak (game ?w) * 10 + 100 = 769"
    by code_simp
  from endGame_perfect_flag [OF a, of 1000] b
  have "\<not> perfectPopup (endGame 1000 ?w)
      \<and> score (game (endGame 1000 ?w))
        = score (game ?w) + max 0 (timeLimit (game ?w) - elapsedSeconds 1000 (game ?w))
          + longestStreak (game ?w) * 10 + 100"
    by blast
  with a c show ?thesis
    unfolding Let_def by presburger
qed

section \<open>Exhausted lives\<close>

text \<open>
  C3 (as amended). Take a round started with a difficulty for which the number of
  eligible words of the base list is at least \<open>totalWords\<close> and all the eligible words
  have pairwise distinct letter signatures (no two eligible words at all have the same
  letters). When, in an active state of that round whose current index holds a word, a
  rejected guess that is not empty takes the last life (\<open>lives = 1\<close> before), the round
  ends with \<open>lives = 0\<close>, the lengths of \<open>solved\<close> and \<open>missed\<close> add up to \<open>totalWords\<close>,
  neither list has a duplicate, \<open>missed\<close> holds words of the round, \<open>solved\<close> holds
  dictionary words, and every word of the round is either in \<open>missed\<close> or has an
  accepted answer with its letters in \<open>solved\<close>, never both.
\<close>

theorem lives_exhausted_complete:
  assumes reach: "reachableFrom env (state_of (startGame env d t0 rnd w0)) w"
    and enough: "words (difficultyConfig d) \<le> length (eligible env (difficultyConfig d))"
    and nocoll: "distinct (map lettersSignature (eligible env (difficultyConfig d)))"
    and act: "isGameActive w"
    and tgt: "nth_opt (selectedWords (game w)) (currentWord (game w)) = Some target"
    and ne: "sanitizeInput raw \<noteq> []"
    and rej: "\<not> (sanitizeInput raw \<in> set (dictionary env)
               \<and> sameLetters (sanitizeInput raw) (toLowerCase target))"
    and last: "lives (game w) = 1"
  shows "let w' = state_of (submitAnswer env now (Some raw) w); g' = game w'
         in \<not> isGameActive w' \<and> lives g' = 0
          \<and> length (solved g') + length (missed g') = totalWords g'
          \<and> distinct (solved g') \<and> distinct (missed g')
          \<and> set (missed g') \<subseteq> Some ` set (selectedWords g')
          \<and> set (solved g') \<subseteq> set (dictionary env)
          \<and> (\<forall>t \<in> set (selectedWords g').
                (Some t \<in> set (missed g')) \<noteq> (\<exists>s \<in> set (solved g'). sameLetters s t))"
proof -
  let ?g = "game w"
  let ?ms = "fold (addMissed (selectedWords ?g) (solved ?g))
               [currentWord ?g ..< totalWords ?g] (missed ?g)"
  let ?w' = "state_of (submitAnswer env now (Some raw) w)"
  let ?w1 = "w\<lparr>game := ?g\<lparr>lives := lives ?g - 1, streak := 0, missed := ?ms\<rparr>\<rparr>"
  have "roundInv env (state_of (startGame env d t0 rnd w0))"
    using enough nocoll by (rule roundInv_startGame)
  with reach have "roundInv env w"
    by (rule roundInv_reachableFrom)
  moreover have "selectedWords ?g \<noteq> []"
    using tgt by (auto simp add: nth_opt_def split: if_splits)
  ultimately have g: "inProgress env ?g"
    using act by (simp add: roundInv_def)
  have tot: "totalWords ?g = length (selectedWords ?g)"
    and dsig: "distinct (map lettersSignature (selectedWords ?g))"
    and dic: "set (solved ?g) \<subseteq> set (dictionary env)"
    and msub: "set (missed ?g) \<subseteq> Some ` set (take (currentWord ?g) (selectedWords ?g))"
    using g unfolding inProgress_def by blast+
  have "?w' = (if sanitizeInput raw \<in> set (dictionary env)
                       \<and> sameLetters (sanitizeInput raw) (toLowerCase target)
                       \<and> sanitizeInput raw \<noteq> []
                    then state_of (showNextWord now
                           ((handleCorrectAnswer (sanitizeInput raw) w)
                              \<lparr>game := (game (handleCorrectAnswer (sanitizeInput raw) w))
                                 \<lparr>currentWord := currentWord (game w) + 1,
                                  wordsPlayed := wordsPlayed (game w) + 1\<rparr>\<rparr>))
                    else if sanitizeInput raw \<noteq> []
                         then handleWrongAnswer now (toLowerCase target) w
                         else w)"
    unfolding submitAnswer_state using act by (simp add: tgt)
  also have "\<dots> = handleWrongAnswer now (toLowerCase target) w"
    using ne rej by presburger
  also have "\<dots> = endGame now ?w1"
    by (rule handleWrongAnswer_dead) (simp add: last)
  finally have w': "?w' = endGame now ?w1" .
  have f1: "\<not> isGameActive ?w'"
    unfolding w' by (rule endGame_inactive)
  have f2: "lives (game ?w') = 0"
    unfolding w' endGame_lists by (simp add: last)
  have f3: "solved (game ?w') = solved ?g"
    unfolding w' endGame_lists by simp
  have f4: "missed (game ?w') = ?ms"
    unfolding w' endGame_lists by simp
  have f5: "selectedWords (game ?w') = selectedWords ?g"
    unfolding w' endGame_lists by simp
  have f6: "totalWords (game ?w') = length (selectedWords ?g)"
    unfolding w' endGame_lists by (simp add: tot)
  have sub: "set ?ms \<subseteq> Some ` set (selectedWords ?g)"
  proof -
    have "Some ` set (take (currentWord ?g) (selectedWords ?g)) \<subseteq> Some ` set (selectedWords ?g)"
      by (rule image_mono) (rule set_take_subset)
    moreover have "set (map Some (drop (currentWord ?g) (selectedWords ?g)))
        \<subseteq> Some ` set (selectedWords ?g)"
      unfolding set_map by (rule image_mono) (rule set_drop_subset)
    ultimately show ?thesis
      unfolding inProgress_final(1) [OF g] set_append using msub by blast
  qed
  note m = matched_lists [OF dsig sub inProgress_final(2) [OF g]]
  show ?thesis
    unfolding Let_def f2 f3 f4 f5 f6
    using f1 m dic sub by (simp only: simp_thms)
qed

text \<open>
  The claim as stated fails in three runs of an easy round, each ending on the third
  rejected guess. Where the alternate spelling \<open>lime\<close> was accepted for \<open>mile\<close>, \<open>solved\<close>
  records the guess and the word \<open>mile\<close> is in neither list. Where two eligible words
  have the same letters (\<open>SAFE_WORDS\<close> undefined, \<open>mile\<close> and \<open>lime\<close> both in \<open>WORDS\<close>), the
  answer \<open>lime\<close> for \<open>mile\<close> keeps the later word \<open>lime\<close> out of \<open>missed\<close>: four entries
  for five words. Where only two words are eligible, \<open>missed\<close> gets the two words and
  one \<open>undefined\<close>: three entries for \<open>totalWords = 5\<close>.
\<close>

theorem exhausted_lives_counterexample:
  "(let env = \<lparr>SAFE_WORDS = Some [''mile'', ''tree'', ''bird'', ''frog'', ''lamp''],
                 WORDS = [], ALTERNATE_WORDS = Some [''lime'']\<rparr>;
        w0 = state_of (startGame env Easy 0 id (initWorld 0));
        w1 = state_of (submitAnswer env 5000 (Some ''lime'') w0);
        w2 = state_of (submitAnswer env 6000 (Some ''zzzz'') w1);
        w3 = state_of (submitAnswer env 7000 (Some ''zzzz'') w2);
        w4 = state_of (submitAnswer env 8000 (Some ''zzzz'') w3)
    in lives (game w3) = 1 \<and> lives (game w4) = 0
     \<and> length (solved (game w4)) + length (missed (game w4)) = totalWords (game w4)
     \<and> ''mile'' \<in> set (selectedWords (game w4))
     \<and> ''mile'' \<notin> set (solved (game w4))
     \<and> Some ''mile'' \<notin> set (missed (game w4)))
   \<and> (let env = \<lparr>SAFE_WORDS = None,
                 WORDS = [''mile'', ''lime'', ''bird'', ''frog'', ''lamp''],
                 ALTERNATE_WORDS = None\<rparr>;
        w0 = state_of (startGame env Easy 0 id (initWorld 0));
        w1 = state_of (submitAnswer env 5000 (Some ''lime'') w0);
        w2 = state_of (submitAnswer env 6000 (Some ''zzzz'') w1);
        w3 = state_of (submitAnswer env 7000 (Some ''zzzz'') w2);
        w4 = state_of (submitAnswer env 8000 (Some ''zzzz'') w3)
    in \<not> distinct (map lettersSignature (eligible env (difficultyConfig Easy)))
     \<and> lives (game w3) = 1 \<and> lives (game w4) = 0
     \<and> solved (game w4) = [''lime'']
     \<and> missed (game w4) = [Some ''bird'', Some ''frog'', Some ''lamp'']
     \<and> totalWords (game w4) = 5)
   \<and> (let env = \<lparr>SAFE_WORDS = Some [''tree'', ''bird'', ''planet''], WORDS = [],
                 ALTERNATE_WORDS = None\<rparr>;
        w0 = state_of (startGame env Easy 0 id (initWorld 0));
        w1 = state_of (submitAnswer env 5000 (Some ''zzzz'') w0);
        w2 = state_of (submitAnswer env 6000 (Some ''zzzz'') w1);
        w3 = state_of (submitAnswer env 7000 (Some ''zzzz'') w2)
    in length (eligible env (difficultyConfig Easy)) < words (difficultyConfig Easy)
     \<and> lives (game w2) = 1 \<and> lives (game w3) = 0
     \<and> solved (game w3) = []
     \<and> missed (game w3) = [Some ''tree'', Some ''bird'', None]
     \<and> totalWords (game w3) = 5)"
  by code_simp

theorem lives_exhausted_complete_witness:
  "let env = \<lparr>SAFE_WORDS = Some [''mile'', ''tree'', ''bird'', ''frog'', ''lamp''],
                WORDS = [], ALTERNATE_WORDS = Some [''lime'']\<rparr>;
       w0 = state_of (startGame env Easy 0 id (initWorld 0));
       w1 = state_of (submitAnswer env 5000 (Some ''lime'') w0);
       w2 = state_of (skipWord 6000 w1);
       w3 = state_of (submitAnswer env 7000 (Some ''zzzz'') w2);
       w4 = state_of (submitAnswer env 8000 (Some ''zzzz'') w3);
       g' = game (state_of (submitAnswer env 9000 (Some ''zzzz'') w4))
   in isGameActive w4 \<and> lives (game w4) = 1
    \<and> lives g' = 0 \<and> length (solved g') + length (missed g') = totalWords g'
    \<and> distinct (solved g') \<and> distinct (missed g')"
proof -
  let ?env = "\<lparr>SAFE_WORDS = Some [''mile'', ''tree'', ''bird'', ''frog'', ''lamp''],
      WORDS = [], ALTERNATE_WORDS = Some [''lime'']\<rparr>"
  let ?w0 = "state_of (startGame ?env Easy 0 id (initWorld 0))"
  let ?w1 = "state_of (submitAnswer ?env 5000 (Some ''lime'') ?w0)"
  let ?w2 = "state_of (skipWord 6000 ?w1)"
  let ?w3 = "state_of (submitAnswer ?env 7000 (Some ''zzzz'') ?w2)"
  let ?w4 = "state_of (submitAnswer ?env 8000 (Some ''zzzz'') ?w3)"
  have reach: "reachableFrom ?env ?w0 ?w4"
    by (intro reachableFrom.intros)
  have enough: "words (difficultyConfig Easy) \<le> length (eligible ?env (difficultyConfig Easy))"
    by code_simp
  have nocoll: "distinct (map lettersSignature (eligible ?env (difficultyConfig Easy)))"
    by code_simp
  have act: "isGameActive ?w4"
    by code_simp
  have tgt: "nth_opt (selectedWords (game ?w4)) (currentWord (game ?w4)) = Some ''bird''"
    by code_simp
  have ne: "sanitizeInput ''zzzz'' \<noteq> []"
    by code_simp
  have rej: "\<not> (sanitizeInput ''zzzz'' \<in> set (dictionary ?env)
               \<and> sameLetters (sanitizeInput ''zzzz'') (toLowerCase ''bird''))"
    by code_simp
  have last: "lives (game ?w4) = 1"
    by code_simp
  from lives_exhausted_complete [OF reach enough nocoll act tgt ne rej last, of 9000]
    act last
  show ?thesis
    unfolding Let_def by blast
qed

section \<open>Calls outside an active round\<close>

text \<open>Only \<open>submitAnswer\<close> looks at the active flag.\<close>

lemma submitAnswer_inactive: "\<not> isGameActive w \<Longrightarrow> submitAnswer env now input w = Returned w"
  by (simp add: submitAnswer_def split: option.splits)

text \<open>
  C7. \<open>useHint\<close>, \<open>skipWord\<close> and \<open>updateGame\<close> do not look at the active flag. Before
  the first round \<open>useHint\<close> takes a hint and throws. After a round that the timer ended,
  \<open>skipWord\<close> records a missed word and moves the index and \<open>useHint\<close> takes a hint; with a
  word solved, a further tick adds the streak bonus to the final score once more.
\<close>

theorem inactive_calls_change_state:
  "let env = \<lparr>SAFE_WORDS = Some [''mile'', ''tree'', ''bird'', ''frog'', ''lamp''],
                WORDS = [], ALTERNATE_WORDS = Some [''lime'']\<rparr>;
       idle = initWorld 0;
       w0 = state_of (startGame env Easy 0 id idle);
       ended = updateGame 120000 w0;
       w1 = state_of (submitAnswer env 5000 (Some ''mile'') w0);
       ended1 = updateGame 120000 w1
   in \<not> isGameActive idle
    \<and> \<not> returned (useHint idle)
    \<and> hints (game idle) = 3 \<and> hints (game (state_of (useHint idle))) = 2
    \<and> \<not> isGameActive ended
    \<and> missed (game ended) = []
    \<and> missed (game (state_of (skipWord 121000 ended))) = [Some ''mile'']
    \<and> currentWord (game ended) = 0
    \<and> currentWord (game (state_of (skipWord 121000 ended))) = 1
    \<and> hints (game ended) = 3
    \<and> hints (game (state_of (useHint ended))) = 2
    \<and> \<not> isGameActive ended1
    \<and> score (game ended1) = 110
    \<and> score (game (updateGame 121000 ended1)) = 120"
  by code_simp

text \<open>
  C8. \<open>endGame\<close> does not look at the active flag either. A round with one word
  solved ends on the skip of its last word with 220 points; \<open>endGame\<close> run again, directly
  or by one more \<open>skipWord\<close>, adds the time and streak bonuses once more. The two lists
  stay as they are under \<open>endGame\<close>.
\<close>

theorem endGame_twice_adds_bonus:
  "let env = \<lparr>SAFE_WORDS = Some [''mile'', ''tree'', ''bird'', ''frog'', ''lamp''],
                WORDS = [], ALTERNATE_WORDS = Some [''lime'']\<rparr>;
       w0 = state_of (startGame env Easy 0 id (initWorld 0));
       w1 = state_of (submitAnswer env 5000 (Some ''mile'') w0);
       w2 = state_of (skipWord 6000 w1);
       w3 = state_of (skipWord 7000 w2);
       w4 = state_of (skipWord 8000 w3);
       ended = state_of (skipWord 10000 w4)
   in isGameActive w4 \<and> \<not> isGameActive ended
    \<and> score (game ended) = 220
    \<and> score (game (endGame 10000 ended)) = 340
    \<and> score (game (state_of (skipWord 10000 ended))) = 340
    \<and> solved (game (endGame 10000 ended)) = solved (game ended)
    \<and> missed (game (endGame 10000 ended)) = missed (game ended)"
  by code_simp

section \<open>Starting a round\<close>

text \<open>
  C9 (as amended). \<open>startGame\<close> checks nothing: the session is active after it in every
  case, with \<open>totalWords\<close> as configured and as many selected words as there are, up to
  \<open>totalWords\<close>. It returns normally unless no word is eligible, in which case showing
  the first word throws, the session being active already.
\<close>

theorem startGame_no_check:
  "isGameActive (state_of (startGame env d now rnd w))
   \<and> totalWords (game (state_of (startGame env d now rnd w))) = words (difficultyConfig d)
   \<and> length (selectedWords (game (state_of (startGame env d now rnd w))))
     = min (words (difficultyConfig d)) (length (eligible env (difficultyConfig d)))
   \<and> (returned (startGame env d now rnd w) \<longleftrightarrow> eligible env (difficultyConfig d) \<noteq> [])"
proof -
  have pos: "0 < words (difficultyConfig d)"
    by (cases d) simp_all
  define g where "g = \<lparr>difficulty = d, totalWords = words (difficultyConfig d),
       timeLimit = time (difficultyConfig d), currentWord = 0,
       score = 0, lives = 3, hints = 3, streak = 0, longestStreak = 0,
       startTime = Some now,
       selectedWords = take (words (difficultyConfig d)) (shuffleArray rnd (eligible env (difficultyConfig d))),
       solved = [], missed = [], wordsPlayed = 0\<rparr>"
  define w1 where "w1 = w\<lparr>game := g, currentHintsUsed := Map.empty, isGameActive := True\<rparr>"
  have sg: "startGame env d now rnd w = showNextWord now w1"
    by (simp add: startGame_def Let_def g_def w1_def)
  have cw: "\<not> currentWord (game w1) \<ge> totalWords (game w1)"
    using pos by (simp add: w1_def g_def)
  have len: "length (selectedWords (game w1))
     = min (words (difficultyConfig d)) (length (eligible env (difficultyConfig d)))"
    by (simp add: w1_def g_def length_shuffleArray)
  have st: "state_of (showNextWord now w1) = w1"
    using cw by (simp add: showNextWord_state)
  have ret: "returned (showNextWord now w1) \<longleftrightarrow> selectedWords (game w1) \<noteq> []"
    using cw by (simp add: showNextWord_def nth_opt_def w1_def g_def)
  have ne: "selectedWords (game w1) \<noteq> [] \<longleftrightarrow> eligible env (difficultyConfig d) \<noteq> []"
    using len pos by (metis length_0_conv min_0R min_less_iff_conj neq0_conv length_greater_0_conv)
  have "isGameActive w1" "totalWords (game w1) = words (difficultyConfig d)"
    by (simp_all add: w1_def g_def)
  then show ?thesis
    unfolding sg st using len ret ne by simp
qed

text \<open>With two eligible words the easy round begins, two words long.\<close>

theorem startGame_short_list_counterexample:
  "let env = \<lparr>SAFE_WORDS = Some [''tree'', ''bird'', ''planet''], WORDS = [],
                ALTERNATE_WORDS = None\<rparr>;
       r = startGame env Easy 0 id (initWorld 0)
   in length (eligible env (difficultyConfig Easy)) < words (difficultyConfig Easy)
    \<and> returned r
    \<and> isGameActive (state_of r)
    \<and> totalWords (game (state_of r)) = 5
    \<and> selectedWords (game (state_of r)) = [''tree'', ''bird'']"
  by code_simp

section \<open>Scrambling\<close>

text \<open>
  C10 (as amended). \<open>scrambleWord\<close> returns a rearrangement of the word's letters, with
  the letter signature of the word. The result is the word itself exactly when the word
  has at most one letter or each of the eleven shuffles, the first and the ten retries,
  gave the word back.
\<close>

theorem scrambleWord_permutes:
  "mset (scrambleWord picks word) = mset word
   \<and> lettersSignature (scrambleWord picks word) = lettersSignature word
   \<and> (scrambleWord picks word = word
        \<longleftrightarrow> length word \<le> 1 \<or> (\<forall>n \<in> {0..10}. sortRandom (picks n) word = word))"
proof -
  have m: "mset (scrambleWord picks word) = mset word"
    by (simp add: scrambleWord_def scrambleLoop_mset mset_sortRandom)
  then have "mset (toLowerCase (scrambleWord picks word)) = mset (toLowerCase word)"
    unfolding toLowerCase_def by (metis mset_map)
  then have s: "lettersSignature (scrambleWord picks word) = lettersSignature word"
    unfolding lettersSignature_def by (metis mset_sort properties_for_sort sorted_sort)
  have split: "{0..10::nat} = insert 0 {0<..10}"
    by auto
  have "scrambleWord picks word = word
        \<longleftrightarrow> length word \<le> 1 \<or> (\<forall>n \<in> {0..10}. sortRandom (picks n) word = word)"
    unfolding split by (simp add: scrambleWord_def scrambleLoop_same)
  with m s show ?thesis by blast
qed

text \<open>Eleven shuffles that keep the order return \<open>ab\<close> for \<open>ab\<close>, although \<open>ba\<close> exists.\<close>

theorem scrambleWord_counterexample:
  "mset ''ba'' = mset ''ab'' \<and> ''ba'' \<noteq> ''ab'' \<and> scrambleWord (\<lambda>n. []) ''ab'' = ''ab''"
  by code_simp

theorem scrambleWord_permutes_witness:
  "(3::nat) \<in> {0..10}
   \<and> sortRandom (if (3::nat) = 3 then [1] else []) ''ab'' = ''ba''
   \<and> scrambleWord (\<lambda>n. if n = 3 then [1] else []) ''ab'' \<noteq> ''ab''"
proof -
  have a: "(3::nat) \<in> {0..10}"
    by simp
  have b: "sortRandom (if (3::nat) = 3 then [1] else []) ''ab'' = ''ba''"
    by simp
  have c: "\<not> length ''ab'' \<le> 1"
    by simp
  from scrambleWord_permutes [of "\<lambda>n. if n = 3 then [1] else []" "''ab''"] a b c
  show ?thesis
    by auto
qed

end
